theory Spec2Isabelle
  imports Complex_Main "HOL-Library.Monad_Syntax"
begin

section \<open>Hand tracking component (src/HandController.tsx)\<close>

subsection \<open>Detection results and the control signal\<close>

text \<open>
  A landmark of the vision engine is an object with numeric fields \<^verbatim>\<open>x\<close> and \<^verbatim>\<open>y\<close>.
  JavaScript numbers are modelled as reals. The fields are named \<open>lx\<close> and \<open>ly\<close>.
\<close>

record landmark =
  lx :: real
  ly :: real

text \<open>
  One detected hand is a JavaScript array of landmarks. An entry \<open>None\<close> stands for a
  falsy slot (\<^verbatim>\<open>undefined\<close> or \<^verbatim>\<open>null\<close>).
\<close>

type_synonym hand = "landmark option list"

text \<open>
  The \<^verbatim>\<open>results\<close> object handed to \<^verbatim>\<open>onResults\<close>: \<^verbatim>\<open>results.multiHandLandmarks\<close> is
  either missing (\<open>None\<close>) or an array of hands.
\<close>

record results =
  multiHandLandmarks :: "hand list option"

text \<open>The two arguments of one call \<^verbatim>\<open>onInput(x, isActive)\<close>.\<close>

record signal =
  sx :: real
  active :: bool

text \<open>
  Reading \<^verbatim>\<open>a[i]\<close> followed by a truthiness test: an index past the end of the
  array gives \<^verbatim>\<open>undefined\<close>, which is falsy just as an empty slot is.
\<close>

definition js_index :: "'a option list \<Rightarrow> nat \<Rightarrow> 'a option" where
  "js_index a i = (if i < length a then a ! i else None)"

text \<open>
  Lines 150 to 179 of \<^verbatim>\<open>onResults\<close>, restricted to the call of \<^verbatim>\<open>onInput\<close>
  (the drawing on the canvas is presentation and is left out). The result is the
  signal passed to \<^verbatim>\<open>onInput\<close>, or \<open>None\<close> when \<^verbatim>\<open>onInput\<close> is not called.
\<close>

definition normalize :: "results \<Rightarrow> signal option" where
  "normalize r =
     (case multiHandLandmarks r of
        None \<Rightarrow> Some \<lparr>sx = 0, active = False\<rparr>
      | Some hands \<Rightarrow>
          if length hands > 0 then
            (let landmarks = hands ! 0 in
               case js_index landmarks 9 of
                 Some l \<Rightarrow>
                   (let rawX = 1 - lx l;
                        normalizedInput = (rawX - 0.5) * 2
                    in Some \<lparr>sx = normalizedInput, active = True\<rparr>)
               | None \<Rightarrow> None)
          else Some \<lparr>sx = 0, active = False\<rparr>)"

subsection \<open>Component state\<close>

text \<open>
  A camera instance of the capture library; \<open>has_stop\<close> says whether
  \<^verbatim>\<open>typeof camera.stop === 'function'\<close>.
\<close>

record camera =
  cam_id :: nat
  has_stop :: bool

text \<open>
  The refs and state of one mounted \<^verbatim>\<open>HandController\<close>. \<open>videoRef\<close> and \<open>canvasRef\<close>
  say whether the ref currently holds an element, \<open>handsRef\<close> whether it holds a
  vision engine instance; \<open>isActive\<close> is the prop of the last committed render.
\<close>

record hc_state =
  scriptsLoaded :: bool
  handsRef :: bool
  cameraRef :: "camera option"
  videoRef :: bool
  canvasRef :: bool
  isActive :: bool

text \<open>
  What the execution environment does when the component uses it: whether
  \<^verbatim>\<open>window.Hands\<close> and \<^verbatim>\<open>window.Camera\<close> are defined, whether the constructors and
  \<^verbatim>\<open>camera.start()\<close> throw, and the camera object the constructor returns.
\<close>

record hc_env =
  window_Hands :: bool
  hands_throws :: bool
  window_Camera :: bool
  camera_ctor_throws :: bool
  camera_start_throws :: bool
  new_camera :: camera

datatype hc_action = NewCamera | StartCamera | StopCamera | LogError

text \<open>
  The render function: \<^verbatim>\<open>if (!isActive) return null\<close>, otherwise the video and the
  canvas elements are part of the output. On commit the framework attaches the refs of
  mounted elements and clears the refs of unmounted ones.
\<close>

definition commit :: "bool \<Rightarrow> hc_state \<Rightarrow> hc_state" where
  "commit b s = s\<lparr>isActive := b, videoRef := b, canvasRef := b\<rparr>"

text \<open>The effect that creates the vision engine instance (lines 74 to 96).\<close>

definition handsEffect :: "hc_env \<Rightarrow> hc_state \<Rightarrow> hc_state \<times> hc_action list" where
  "handsEffect env s =
     (if \<not> scriptsLoaded s \<or> handsRef s then (s, [])
      else if window_Hands env then
        (if hands_throws env then (s, [LogError])
         else (s\<lparr>handsRef := True\<rparr>, []))
      else (s, []))"

text \<open>The effect that manages the camera (lines 99 to 130).\<close>

definition cameraEffect :: "hc_env \<Rightarrow> hc_state \<Rightarrow> hc_state \<times> hc_action list" where
  "cameraEffect env s =
     (if \<not> scriptsLoaded s \<or> \<not> handsRef s \<or> \<not> videoRef s then (s, [])
      else if isActive s then
        (if cameraRef s = None \<and> window_Camera env then
           (if camera_ctor_throws env then (s, [LogError])
            else if camera_start_throws env then (s, [NewCamera, LogError])
            else (s\<lparr>cameraRef := Some (new_camera env)\<rparr>, [NewCamera, StartCamera]))
         else (s, []))
      else
        (case cameraRef s of
           Some c \<Rightarrow> (s\<lparr>cameraRef := None\<rparr>, if has_stop c then [StopCamera] else [])
         | None \<Rightarrow> (s, [])))"

text \<open>
  The whole of \<^verbatim>\<open>onResults\<close> as far as \<^verbatim>\<open>onInput\<close> is concerned: line 135 returns
  before anything else when the canvas ref is empty or the canvas gives no 2D context
  (\<open>ctx\<close> says whether \<^verbatim>\<open>getContext('2d')\<close> succeeds on a mounted canvas).
\<close>

definition onResults :: "hc_state \<Rightarrow> bool \<Rightarrow> results \<Rightarrow> signal option" where
  "onResults s ctx r = (if \<not> canvasRef s \<or> \<not> ctx then None else normalize r)"

text \<open>
  The events of a mounted component: the parent renders it with a new value of the
  \<open>isActive\<close> prop, or the script loader calls \<^verbatim>\<open>setScriptsLoaded(true)\<close>. Effects run
  after the commit, and only when one of their dependencies changed.
\<close>

definition mount :: "bool \<Rightarrow> hc_state" where
  "mount b = \<lparr>scriptsLoaded = False, handsRef = False, cameraRef = None,
              videoRef = b, canvasRef = b, isActive = b\<rparr>"

definition setActive :: "hc_env \<Rightarrow> bool \<Rightarrow> hc_state \<Rightarrow> hc_state" where
  "setActive env b s =
     (if b = isActive s then s else fst (cameraEffect env (commit b s)))"

definition setScriptsLoaded :: "hc_env \<Rightarrow> hc_state \<Rightarrow> hc_state" where
  "setScriptsLoaded env s =
     (if scriptsLoaded s then s
      else fst (cameraEffect env (fst (handsEffect env (s\<lparr>scriptsLoaded := True\<rparr>)))))"

inductive reachable :: "hc_state \<Rightarrow> bool" where
  r_mount: "reachable (mount b)"
| r_active: "reachable s \<Longrightarrow> reachable (setActive env b s)"
| r_scripts: "reachable s \<Longrightarrow> reachable (setScriptsLoaded env s)"


section \<open>Host shell (the application module)\<close>

subsection \<open>Values crossing the host/guest boundary\<close>

text \<open>
  Data posted by the guest, and JSON returned by the text generation service, are
  untyped JavaScript values. The values modelled are the primitives, plain objects and
  arrays: what \<^verbatim>\<open>JSON.parse\<close> produces, and what a message carries when it is built
  from such values. A plain object is the association list of its own properties (the
  first pair of a name is the property); its prototype is \<^verbatim>\<open>Object.prototype\<close>, as it
  is for every object that \<^verbatim>\<open>JSON.parse\<close> or the structured clone of a message
  creates. An array has its elements and no other own property. No value is callable:
  functions cross neither boundary. Numbers are reals; \<^verbatim>\<open>NaN\<close> and the infinities
  are not represented.
\<close>

datatype jsval =
    JUndefined
  | JNull
  | JBool bool
  | JNum real
  | JStr string
  | JArr "jsval list"
  | JObj "(string \<times> jsval) list"

text \<open>
  The property read \<^verbatim>\<open>v.k\<close>, for the property names this program reads (none of them
  is a built-in property of a primitive or of an array). \<open>None\<close> is the
  \<^verbatim>\<open>TypeError\<close> thrown on \<^verbatim>\<open>undefined\<close> and \<^verbatim>\<open>null\<close>.
\<close>

fun js_get :: "jsval \<Rightarrow> string \<Rightarrow> jsval option" where
  "js_get JUndefined k = None"
| "js_get JNull k = None"
| "js_get (JObj fs) k = Some (case map_of fs k of Some v \<Rightarrow> v | None \<Rightarrow> JUndefined)"
| "js_get v k = Some JUndefined"

text \<open>The optional read \<^verbatim>\<open>v?.k\<close>, which gives \<^verbatim>\<open>undefined\<close> instead of throwing.\<close>

definition js_opt_get :: "jsval \<Rightarrow> string \<Rightarrow> jsval" where
  "js_opt_get v k = (case js_get v k of None \<Rightarrow> JUndefined | Some w \<Rightarrow> w)"

text \<open>
  The indexed read \<^verbatim>\<open>v[i]\<close> for a single-digit index \<open>i\<close>: an array element, a
  character of a string, or the property of an object named by the digit.
\<close>

fun js_at :: "jsval \<Rightarrow> nat \<Rightarrow> jsval option" where
  "js_at JUndefined i = None"
| "js_at JNull i = None"
| "js_at (JArr xs) i = Some (if i < length xs then xs ! i else JUndefined)"
| "js_at (JStr s) i = Some (if i < length s then JStr [s ! i] else JUndefined)"
| "js_at (JObj fs) i =
     Some (case map_of fs [char_of (48 + i)] of Some v \<Rightarrow> v | None \<Rightarrow> JUndefined)"
| "js_at v i = Some JUndefined"

fun truthy :: "jsval \<Rightarrow> bool" where
  "truthy JUndefined = False"
| "truthy JNull = False"
| "truthy (JBool b) = b"
| "truthy (JNum n) = (n \<noteq> 0)"
| "truthy (JStr s) = (s \<noteq> [])"
| "truthy v = True"

text \<open>The operator \<^verbatim>\<open>a || b\<close>.\<close>

definition js_or :: "jsval \<Rightarrow> jsval \<Rightarrow> jsval" where
  "js_or a b = (if truthy a then a else b)"

text \<open>Messages the host posts to the guest.\<close>

datatype host_msg =
    PAUSE_GAME bool
  | INPUT_UPDATE real bool
  | REPORT_GENERATED jsval

text \<open>
  Every send is guarded by \<^verbatim>\<open>iframeRef.current?.contentWindow\<close>; \<open>win\<close> says whether
  the guest's content window is there at that moment.
\<close>

definition post :: "bool \<Rightarrow> host_msg \<Rightarrow> host_msg list" where
  "post win m = (if win then [m] else [])"

definition handleHandInput :: "bool \<Rightarrow> real \<Rightarrow> bool \<Rightarrow> host_msg list" where
  "handleHandInput win xv act = post win (INPUT_UPDATE xv act)"

text \<open>The messages one per-frame callback of the tracking component sends to the guest.\<close>

definition frame_messages :: "bool \<Rightarrow> hc_state \<Rightarrow> bool \<Rightarrow> results \<Rightarrow> host_msg list" where
  "frame_messages win s ctx r =
     (case onResults s ctx r of
        None \<Rightarrow> []
      | Some sg \<Rightarrow> handleHandInput win (sx sg) (active sg))"

subsection \<open>Report generation\<close>

text \<open>
  A template literal converts every substitution to a string (\<^verbatim>\<open>ToString\<close>), and the
  conversion can throw. \<open>stringifiable v\<close> says that it does not:
  \<^item> a primitive always converts;
  \<^item> a plain object converts through its \<^verbatim>\<open>toString\<close> property. Without an own
    property of that name this is \<^verbatim>\<open>Object.prototype.toString\<close>, which returns a
    string. An own property of that name is not callable, so the conversion goes on to
    \<^verbatim>\<open>valueOf\<close>, which is either an own property, not callable, or
    \<^verbatim>\<open>Object.prototype.valueOf\<close>, which returns the object itself: in both cases a
    \<^verbatim>\<open>TypeError\<close> is thrown;
  \<^item> an array converts through \<^verbatim>\<open>Array.prototype.join\<close>, which converts every
    element other than \<^verbatim>\<open>undefined\<close> and \<^verbatim>\<open>null\<close> in turn.
\<close>

fun stringifiable :: "jsval \<Rightarrow> bool" where
  "stringifiable (JObj fs) = (map_of fs ''toString'' = None)"
| "stringifiable (JArr xs) = (\<forall>x \<in> set xs. stringifiable x)"
| "stringifiable v = True"

text \<open>One substitution \<^verbatim>\<open>${v}\<close>: \<open>None\<close> is the \<^verbatim>\<open>TypeError\<close> of the conversion.\<close>

definition subst :: "jsval \<Rightarrow> jsval option" where
  "subst v = (if stringifiable v then Some v else None)"

text \<open>
  \<^verbatim>\<open>generateAnalysisPrompt\<close>: the prompt is a fixed text with eleven substitutions. It
  is represented by the eleven values substituted, in order; the text they are
  converted to is not represented, only whether the conversion throws. \<open>None\<close> is a
  \<^verbatim>\<open>TypeError\<close> thrown while the template is evaluated, by a property read or by a
  conversion; the first one ends the evaluation. Each line below is one substitution
  of the source, read from \<^verbatim>\<open>data\<close> as the source reads it.
\<close>

definition generateAnalysisPrompt :: "jsval \<Rightarrow> jsval list option" where
  "generateAnalysisPrompt data = do {
     inst \<leftarrow> js_get data ''metrics'' \<bind> (\<lambda>m. js_get m ''inst'') \<bind> subst;
     net \<leftarrow> js_get data ''metrics'' \<bind> (\<lambda>m. js_get m ''net'') \<bind> subst;
     acad \<leftarrow> js_get data ''metrics'' \<bind> (\<lambda>m. js_get m ''acad'') \<bind> subst;
     hist \<leftarrow> js_get data ''metrics'' \<bind> (\<lambda>m. js_get m ''hist'') \<bind> subst;
     disc \<leftarrow> js_get data ''metrics'' \<bind> (\<lambda>m. js_get m ''disc'') \<bind> subst;
     ev0 \<leftarrow> js_get data ''timeline'' \<bind> (\<lambda>t. js_at t 0)
            \<bind> (\<lambda>e. subst (js_or (js_opt_get e ''event'') (JStr ''Unknown'')));
     ev1 \<leftarrow> js_get data ''timeline'' \<bind> (\<lambda>t. js_at t 1)
            \<bind> (\<lambda>e. subst (js_or (js_opt_get e ''event'') (JStr ''Unknown'')));
     ev2 \<leftarrow> js_get data ''timeline'' \<bind> (\<lambda>t. js_at t 2)
            \<bind> (\<lambda>e. subst (js_or (js_opt_get e ''event'') (JStr ''Unknown'')));
     t1 \<leftarrow> js_get data ''artifacts''
            \<bind> (\<lambda>a. subst (js_or (js_opt_get a ''t1'') (JNum 0)));
     t2 \<leftarrow> js_get data ''artifacts''
            \<bind> (\<lambda>a. subst (js_or (js_opt_get a ''t2'') (JNum 0)));
     t3 \<leftarrow> js_get data ''artifacts''
            \<bind> (\<lambda>a. subst (js_or (js_opt_get a ''t3'') (JNum 0)));
     Some [inst, net, acad, hist, disc, ev0, ev1, ev2, t1, t2, t3]
   }"

text \<open>
  What the text generation service does with one request: the awaited call throws
  (network or service error), or it returns a text. The text is represented by what
  \<^verbatim>\<open>JSON.parse\<close> makes of it: \<open>None\<close> when \<^verbatim>\<open>JSON.parse\<close> throws.
\<close>

datatype svc_outcome = SvcThrows | SvcText "jsval option"

record report_env =
  genai_ctor_throws :: bool
  service :: svc_outcome
  contentWindow :: bool

datatype host_effect =
    CallService "jsval list"
  | ConsoleError
  | Post host_msg

datatype completion = Resolved | Rejected

definition fallback_report :: jsval where
  "fallback_report =
     JObj [(''archetype'', JStr ''DATA FRAGMENTED''),
           (''match'', JStr ''Unknown Entity''),
           (''narrative'', JStr (''The artist'' @ [CHR 0x27] @ ''s trajectory was too volatile to record. The signal was lost in the void, leaving only scattered metadata.''))]"

text \<open>
  The body of the \<^verbatim>\<open>try\<close> block of \<^verbatim>\<open>handleMessage\<close>: the effects it performs and
  whether it ran to its end (\<open>False\<close>: something threw).
\<close>

definition try_report :: "report_env \<Rightarrow> jsval \<Rightarrow> host_effect list \<times> bool" where
  "try_report env gameData =
     (if genai_ctor_throws env then ([], False)
      else case generateAnalysisPrompt gameData of
        None \<Rightarrow> ([], False)
      | Some prompt \<Rightarrow>
          (case service env of
             SvcThrows \<Rightarrow> ([CallService prompt], False)
           | SvcText None \<Rightarrow> ([CallService prompt], False)
           | SvcText (Some report) \<Rightarrow>
               (CallService prompt # map Post (post (contentWindow env) (REPORT_GENERATED report)),
                True)))"

text \<open>
  \<^verbatim>\<open>handleMessage\<close>, applied to \<^verbatim>\<open>event.data\<close>. It is an async function: a throw
  outside the \<^verbatim>\<open>try\<close> block rejects its promise.
\<close>

definition handleMessage :: "report_env \<Rightarrow> jsval \<Rightarrow> host_effect list \<times> completion" where
  "handleMessage env data =
     (case js_get data ''type'' of
        None \<Rightarrow> ([], Rejected)
      | Some t \<Rightarrow>
          if t = JStr ''GAME_OVER'' then
            (case js_get data ''payload'' of
               None \<Rightarrow> ([], Rejected)
             | Some gameData \<Rightarrow>
                 (case try_report env gameData of
                    (effs, True) \<Rightarrow> (effs, Resolved)
                  | (effs, False) \<Rightarrow>
                      (effs @ ConsoleError #
                         map Post (post (contentWindow env) (REPORT_GENERATED fallback_report)),
                       Resolved)))
          else ([], Resolved))"

text \<open>The messages among the effects of a handler run.\<close>

fun posted :: "host_effect list \<Rightarrow> host_msg list" where
  "posted [] = []"
| "posted (Post m # es) = m # posted es"
| "posted (e # es) = posted es"


subsection \<open>Pause synchronisation\<close>

text \<open>
  \<^verbatim>\<open>syncGameState\<close> is a callback that closes over \<^verbatim>\<open>showModal\<close> and
  \<^verbatim>\<open>showRemix\<close> of the render that created it.
\<close>

definition syncGameState :: "bool \<Rightarrow> bool \<Rightarrow> bool \<Rightarrow> host_msg list" where
  "syncGameState sm sr win = (let isPaused = sm \<or> sr in post win (PAUSE_GAME isPaused))"

text \<open>
  The part of the application state the pause logic uses. \<open>timer\<close> is the pending
  timeout of the effect at lines 279 to 283: its deadline and the values the scheduled
  callback closed over. Time is counted in milliseconds.
\<close>

record app_state =
  showModal :: bool
  showRemix :: bool
  iframeWindow :: bool
  timer :: "(nat \<times> bool \<times> bool) option"
  now :: nat

datatype app_event =
    SetShowModal bool
  | SetShowRemix bool
  | SetIframeWindow bool
  | IframeLoad
  | Elapse nat

text \<open>
  A state setter with a new value re-renders; \<^verbatim>\<open>syncGameState\<close> is a new function,
  so the effect's cleanup clears the old timeout and the effect sets a new one, 100ms
  ahead. A timeout fires once its deadline is reached. The iframe's \<^verbatim>\<open>onLoad\<close> calls
  the callback of the current render at once.
\<close>

fun app_step :: "app_event \<Rightarrow> app_state \<Rightarrow> app_state \<times> host_msg list" where
  "app_step (SetShowModal b) s =
     (if b = showModal s then (s, [])
      else (s\<lparr>showModal := b, timer := Some (now s + 100, b, showRemix s)\<rparr>, []))"
| "app_step (SetShowRemix b) s =
     (if b = showRemix s then (s, [])
      else (s\<lparr>showRemix := b, timer := Some (now s + 100, showModal s, b)\<rparr>, []))"
| "app_step (SetIframeWindow b) s = (s\<lparr>iframeWindow := b\<rparr>, [])"
| "app_step IframeLoad s = (s, syncGameState (showModal s) (showRemix s) (iframeWindow s))"
| "app_step (Elapse d) s =
     (case timer s of
        None \<Rightarrow> (s\<lparr>now := now s + d\<rparr>, [])
      | Some (deadline, sm, sr) \<Rightarrow>
          if deadline \<le> now s + d
          then (s\<lparr>now := now s + d, timer := None\<rparr>, syncGameState sm sr (iframeWindow s))
          else (s\<lparr>now := now s + d\<rparr>, []))"

fun app_run :: "app_event list \<Rightarrow> app_state \<Rightarrow> app_state \<times> host_msg list" where
  "app_run [] s = (s, [])"
| "app_run (e # es) s =
     (case app_step e s of (s1, out1) \<Rightarrow>
        (case app_run es s1 of (s2, out2) \<Rightarrow> (s2, out1 @ out2)))"

text \<open>The state after the first render: the intro modal is open.\<close>

definition app_init :: app_state where
  "app_init = \<lparr>showModal = True, showRemix = False, iframeWindow = False,
               timer = Some (100, True, False), now = 0\<rparr>"

section \<open>Script loading (src/HandController.tsx, lines 32 to 61)\<close>

definition script_urls :: "string list" where
  "script_urls =
     [''https://cdn.jsdelivr.net/npm/@mediapipe/camera_utils/camera_utils.js'',
      ''https://cdn.jsdelivr.net/npm/@mediapipe/drawing_utils/drawing_utils.js'',
      ''https://cdn.jsdelivr.net/npm/@mediapipe/hands/hands.js'']"

text \<open>
  One run of \<^verbatim>\<open>initScripts\<close> is at one of its awaits: \<open>Checking k\<close> when the
  promise of the URL before \<open>k\<close> is resolved and the continuation that calls
  \<^verbatim>\<open>loadScript\<close> on URL \<open>k\<close> is due, \<open>Waiting k\<close> when it has appended the script
  tag of URL \<open>k\<close> and waits for its \<^verbatim>\<open>onload\<close> or \<^verbatim>\<open>onerror\<close>; or it has ended,
  \<open>Done\<close> past the last await, \<open>Failed\<close> in the \<^verbatim>\<open>catch\<close> block.
\<close>

datatype inv_state = Checking nat | Waiting nat | Done | Failed

text \<open>
  The document: the \<^verbatim>\<open>src\<close> of the script tags in the head, in order, the scripts
  that have fired \<^verbatim>\<open>onload\<close>, those that have fired \<^verbatim>\<open>onerror\<close>; and the runs of
  \<^verbatim>\<open>initScripts\<close> started so far.
\<close>

record loader_state =
  tags :: "string list"
  loaded :: "string list"
  errored :: "string list"
  invs :: "inv_state list"

text \<open>
  \<^verbatim>\<open>loadScript\<close>: with a tag of that \<^verbatim>\<open>src\<close> in the document the promise is
  resolved at once (\<open>True\<close>), otherwise a tag is appended and the promise is pending.
\<close>

definition loadScript :: "string \<Rightarrow> loader_state \<Rightarrow> loader_state \<times> bool" where
  "loadScript src s =
     (if src \<in> set (tags s) then (s, True)
      else (s\<lparr>tags := tags s @ [src]\<rparr>, False))"

text \<open>\<^verbatim>\<open>initScripts\<close> from its \<open>k\<close>-th call of \<^verbatim>\<open>loadScript\<close> to the next await.\<close>

definition initScripts_from :: "string list \<Rightarrow> nat \<Rightarrow> loader_state \<Rightarrow> loader_state \<times> inv_state" where
  "initScripts_from us k s =
     (if k < length us then
        (case loadScript (us ! k) s of
           (s1, True) \<Rightarrow> (s1, Checking (Suc k))
         | (s1, False) \<Rightarrow> (s1, Waiting k))
      else (s, Done))"

text \<open>What \<^verbatim>\<open>onload\<close> and \<^verbatim>\<open>onerror\<close> of the tag of URL \<open>u\<close> do to a run.\<close>

fun on_load :: "string list \<Rightarrow> string \<Rightarrow> inv_state \<Rightarrow> inv_state" where
  "on_load us u (Waiting k) = (if k < length us \<and> us ! k = u then Checking (Suc k) else Waiting k)"
| "on_load us u st = st"

fun on_error :: "string list \<Rightarrow> string \<Rightarrow> inv_state \<Rightarrow> inv_state" where
  "on_error us u (Waiting k) = (if k < length us \<and> us ! k = u then Failed else Waiting k)"
| "on_error us u st = st"

datatype loader_event = Invoke | Resume nat | Loaded string | Errored string

text \<open>
  The steps of the event loop: a new run of \<^verbatim>\<open>initScripts\<close> starts, the continuation
  of run \<open>i\<close> is executed, or a script tag fires \<^verbatim>\<open>onload\<close> or \<^verbatim>\<open>onerror\<close> (once, and
  only the run that appended the tag has a handler on it).
\<close>

fun loader_step :: "string list \<Rightarrow> loader_event \<Rightarrow> loader_state \<Rightarrow> loader_state" where
  "loader_step us Invoke s =
     (case initScripts_from us 0 s of (s1, st) \<Rightarrow> s1\<lparr>invs := invs s1 @ [st]\<rparr>)"
| "loader_step us (Resume i) s =
     (if i < length (invs s) then
        (case invs s ! i of
           Checking k \<Rightarrow>
             (case initScripts_from us k s of (s1, st) \<Rightarrow> s1\<lparr>invs := (invs s1)[i := st]\<rparr>)
         | _ \<Rightarrow> s)
      else s)"
| "loader_step us (Loaded u) s =
     (if u \<in> set (tags s) \<and> u \<notin> set (loaded s) \<and> u \<notin> set (errored s)
      then s\<lparr>loaded := u # loaded s, invs := map (on_load us u) (invs s)\<rparr>
      else s)"
| "loader_step us (Errored u) s =
     (if u \<in> set (tags s) \<and> u \<notin> set (loaded s) \<and> u \<notin> set (errored s)
      then s\<lparr>errored := u # errored s, invs := map (on_error us u) (invs s)\<rparr>
      else s)"

fun loader_run :: "string list \<Rightarrow> loader_event list \<Rightarrow> loader_state \<Rightarrow> loader_state" where
  "loader_run us [] s = s"
| "loader_run us (e # es) s = loader_run us es (loader_step us e s)"

definition loader_init :: loader_state where
  "loader_init = \<lparr>tags = [], loaded = [], errored = [], invs = []\<rparr>"

text \<open>All modules have finished loading.\<close>

definition all_loaded :: "string list \<Rightarrow> loader_state \<Rightarrow> bool" where
  "all_loaded us s = (\<forall>u \<in> set us. u \<in> set (loaded s))"

text \<open>Script tags that are in the document and have neither loaded nor failed yet.\<close>

definition in_flight :: "loader_state \<Rightarrow> string list" where
  "in_flight s = filter (\<lambda>u. u \<notin> set (loaded s) \<and> u \<notin> set (errored s)) (tags s)"

fun is_Invoke :: "loader_event \<Rightarrow> bool" where
  "is_Invoke Invoke = True"
| "is_Invoke e = False"


section \<open>Concrete inputs\<close>

text \<open>An environment in which the libraries are present and nothing throws.\<close>

definition demo_env :: hc_env where
  "demo_env = \<lparr>window_Hands = True, hands_throws = False, window_Camera = True,
     camera_ctor_throws = False, camera_start_throws = False,
     new_camera = \<lparr>cam_id = 0, has_stop = True\<rparr>\<rparr>"

text \<open>A frame with one hand of 21 landmarks, and a hand with a single landmark.\<close>

definition demo_frame :: results where
  "demo_frame = \<lparr>multiHandLandmarks = Some [replicate 21 (Some \<lparr>lx = 0.25, ly = 0.5\<rparr>)]\<rparr>"

definition short_frame :: results where
  "short_frame = \<lparr>multiHandLandmarks = Some [[Some \<lparr>lx = 0.5, ly = 0.5\<rparr>]]\<rparr>"

text \<open>
  The component mounted inactive, then the scripts load, then it is activated: the
  camera runs.
\<close>

definition tracking_state :: hc_state where
  "tracking_state = setActive demo_env True (setScriptsLoaded demo_env (mount False))"

text \<open>Mounted elements and a vision engine, but inactive and without a camera.\<close>

definition idle_state :: hc_state where
  "idle_state = \<lparr>scriptsLoaded = True, handsRef = True, cameraRef = None,
                 videoRef = True, canvasRef = True, isActive = False\<rparr>"

definition telemetry :: jsval where
  "telemetry = JObj
     [(''metrics'', JObj [(''inst'', JNum 80), (''net'', JNum 20), (''acad'', JNum 90),
                          (''hist'', JNum 70), (''disc'', JNum 10)]),
      (''timeline'', JArr [JObj [(''event'', JStr ''studied at academy'')],
                           JObj [(''event'', JStr ''rejected market'')],
                           JObj [(''event'', JStr ''retrospective exhibit'')]]),
      (''artifacts'', JObj [(''t1'', JNum 12), (''t2'', JNum 3), (''t3'', JNum 40)])]"

text \<open>
  A payload of the expected outline whose first metric is an object with an own
  property \<^verbatim>\<open>toString\<close> that is a number, and a payload whose fields are all missing.
\<close>

definition unprintable_payload :: jsval where
  "unprintable_payload =
     JObj [(''metrics'', JObj [(''inst'', JObj [(''toString'', JNum 1)])]),
           (''timeline'', JArr [])]"



definition game_over :: "jsval \<Rightarrow> jsval" where
  "game_over payload = JObj [(''type'', JStr ''GAME_OVER''), (''payload'', payload)]"

definition pillar_report :: jsval where
  "pillar_report = JObj [(''archetype'', JStr ''THE INSTITUTIONAL PILLAR''),
     (''match'', JStr ''Ad Reinhardt''), (''narrative'', JStr ''...'')]"

definition env_ok :: report_env where
  "env_ok = \<lparr>genai_ctor_throws = False, service = SvcText (Some pillar_report),
             contentWindow = True\<rparr>"

definition env_down :: report_env where
  "env_down = \<lparr>genai_ctor_throws = False, service = SvcThrows, contentWindow = True\<rparr>"

text \<open>
  Two runs of \<^verbatim>\<open>initScripts\<close> started in the same turn of the event loop; the second
  and third script then load before the first one does.
\<close>

definition concurrent_schedule :: "loader_event list" where
  "concurrent_schedule =
     [Invoke, Invoke, Resume 1, Loaded (script_urls ! 1), Resume 1,
      Loaded (script_urls ! 2), Resume 1]"

text \<open>One run, each script loading in turn.\<close>

definition single_schedule :: "loader_event list" where
  "single_schedule =
     [Loaded (script_urls ! 0), Resume 0, Loaded (script_urls ! 1), Resume 0,
      Loaded (script_urls ! 2), Resume 0]"

section \<open>Auxiliary predicates\<close>

fun is_Elapse :: "app_event \<Rightarrow> bool" where
  "is_Elapse (Elapse d) = True"
| "is_Elapse e = False"

text \<open>
  The shape of the loader's state while a single run of \<^verbatim>\<open>initScripts\<close> works on a
  document that had none of the script tags: the tags are a prefix of the URL list,
  and every tag but the one being waited for has loaded.
\<close>

definition seq_inv :: "string list \<Rightarrow> loader_state \<Rightarrow> bool" where
  "seq_inv us s =
     (case invs s of
        [Checking k] \<Rightarrow>
          k \<le> length us \<and> tags s = take k us \<and> set (loaded s) = set (take k us)
          \<and> errored s = []
      | [Waiting k] \<Rightarrow>
          k < length us \<and> tags s = take (Suc k) us \<and> set (loaded s) = set (take k us)
          \<and> errored s = []
      | [Done] \<Rightarrow> tags s = us \<and> set (loaded s) = set us \<and> errored s = []
      | [Failed] \<Rightarrow>
          (\<exists>k < length us. tags s = take (Suc k) us \<and> set (loaded s) = set (take k us)
             \<and> errored s = [us ! k])
      | _ \<Rightarrow> False)"

section \<open>The control signal\<close>

text \<open>
  Claim C1, as amended. Provided the overlay canvas is mounted and gives a 2D context
  when the per-frame callback runs: for every hand frame in which the reference
  landmark (index 9) is present with x-coordinate \<open>v\<close>, the callback passes
  \<open>x = (1 - v - 0.5) * 2\<close> and \<open>active = true\<close> to \<^verbatim>\<open>onInput\<close>, and for a frame
  without a hand (the list of hands empty or missing) it passes \<open>x = 0\<close> and
  \<open>active = false\<close>. When the canvas is not mounted or gives no 2D context, the
  callback returns before it emits any signal. The expression of the claim is the
  expression of the code, evaluated in the same order.
\<close>

theorem onResults_signal:
  "(canvasRef s \<and> ctx \<and> multiHandLandmarks r = Some (h # hs) \<and> js_index h 9 = Some l
      \<and> lx l = v
      \<longrightarrow> onResults s ctx r = Some \<lparr>sx = (1 - v - 0.5) * 2, active = True\<rparr>)
   \<and> (canvasRef s \<and> ctx \<and> (multiHandLandmarks r = Some [] \<or> multiHandLandmarks r = None)
      \<longrightarrow> onResults s ctx r = Some \<lparr>sx = 0, active = False\<rparr>)
   \<and> (\<not> canvasRef s \<or> \<not> ctx \<longrightarrow> onResults s ctx r = None)"
  by (auto simp: onResults_def normalize_def Let_def)

theorem onResults_signal_witness:
  "onResults tracking_state True demo_frame = Some \<lparr>sx = 0.5, active = True\<rparr>
   \<and> onResults tracking_state True \<lparr>multiHandLandmarks = Some []\<rparr>
       = Some \<lparr>sx = 0, active = False\<rparr>
   \<and> onResults tracking_state False demo_frame = None"
proof -
  have c: "canvasRef tracking_state"
    by (simp add: tracking_state_def setActive_def setScriptsLoaded_def mount_def
        demo_env_def commit_def cameraEffect_def handsEffect_def)
  from onResults_signal [where s = tracking_state and ctx = True and r = demo_frame
      and h = "replicate 21 (Some \<lparr>lx = 0.25, ly = 0.5\<rparr>)" and hs = "[]"
      and l = "\<lparr>lx = 0.25, ly = 0.5\<rparr>" and v = "0.25"]
    onResults_signal [where s = tracking_state and ctx = True
      and r = "\<lparr>multiHandLandmarks = Some []\<rparr>"]
    onResults_signal [where s = tracking_state and ctx = False and r = demo_frame] c
  show ?thesis by (simp add: demo_frame_def js_index_def)
qed

text \<open>
  The claim as first stated (every hand frame with the reference landmark yields the
  signal) fails for a frame that arrives once the component has been deactivated: the
  canvas is unmounted and the callback emits nothing.
\<close>

theorem onResults_unmounted_counterexample:
  "onResults (setActive demo_env False tracking_state) True demo_frame = None"
  by (simp add: onResults_def tracking_state_def setActive_def setScriptsLoaded_def mount_def
      demo_env_def commit_def cameraEffect_def handsEffect_def)

text \<open>
  Claim C2, as amended. For every frame with a non-empty hand detection in which
  landmark index 9 is absent, the normalizer does not call \<^verbatim>\<open>onInput\<close> at all: the
  frame is skipped and no control signal is emitted for it.
\<close>

theorem missing_reference_skipped:
  "multiHandLandmarks r = Some (h # hs) \<Longrightarrow> js_index h 9 = None \<Longrightarrow> normalize r = None"
  by (simp add: normalize_def)

theorem missing_reference_skipped_witness:
  "normalize short_frame = None"
  using missing_reference_skipped [of short_frame "[Some \<lparr>lx = 0.5, ly = 0.5\<rparr>]" "[]"]
  by (simp add: short_frame_def js_index_def)

text \<open>
  The claim as first stated (such a frame gives the signal of an empty detection) fails
  on a hand that has a single landmark.
\<close>

theorem missing_reference_counterexample:
  "normalize short_frame \<noteq> Some \<lparr>sx = 0, active = False\<rparr>"
  by (simp add: short_frame_def normalize_def js_index_def)

section \<open>The tracking session\<close>

lemma cameraEffect_refs:
  "isActive (fst (cameraEffect env s)) = isActive s"
  "canvasRef (fst (cameraEffect env s)) = canvasRef s"
  "videoRef (fst (cameraEffect env s)) = videoRef s"
  by (auto simp: cameraEffect_def split: option.splits)

lemma handsEffect_refs:
  "isActive (fst (handsEffect env s)) = isActive s"
  "canvasRef (fst (handsEffect env s)) = canvasRef s"
  "videoRef (fst (handsEffect env s)) = videoRef s"
  by (auto simp: handsEffect_def)

text \<open>The video and the canvas are mounted exactly while the component is active.\<close>

lemma reachable_refs:
  "reachable s \<Longrightarrow> canvasRef s = isActive s \<and> videoRef s = isActive s"
proof (induction rule: reachable.induct)
  case (r_mount b)
  show ?case by (simp add: mount_def)
next
  case (r_active s env b)
  then show ?case by (simp add: setActive_def cameraEffect_refs commit_def)
next
  case (r_scripts s env)
  then show ?case by (simp add: setScriptsLoaded_def cameraEffect_refs handsEffect_refs)
qed

text \<open>
  When the prop turns false the video element is gone by the time the camera effect
  runs, so the effect returns at its first line: the camera object stays in its ref.
\<close>

lemma deactivation_keeps_camera:
  "cameraRef (setActive env False s) = cameraRef s"
  by (simp add: setActive_def cameraEffect_def commit_def)

lemma tracking_state_simps:
  "cameraRef tracking_state = Some \<lparr>cam_id = 0, has_stop = True\<rparr>"
  "isActive tracking_state"
  "canvasRef tracking_state"
  by (simp_all add: tracking_state_def setActive_def setScriptsLoaded_def mount_def
      demo_env_def commit_def cameraEffect_def handsEffect_def)

text \<open>
  Claim C7. After the component is deactivated, a per-frame callback of the vision
  engine that still arrives sends no input message to the guest: in every state the
  component can reach in which it is not active, \<^verbatim>\<open>onResults\<close> returns before it calls
  \<^verbatim>\<open>onInput\<close>, whatever the frame.
\<close>

theorem no_input_after_deactivation:
  assumes "reachable s" and "\<not> isActive s"
  shows "onResults s ctx r = None \<and> frame_messages win s ctx r = []"
  using reachable_refs [OF assms(1)] assms(2)
  by (simp add: onResults_def frame_messages_def)

theorem no_input_after_deactivation_witness:
  "reachable (setActive demo_env False tracking_state)
   \<and> \<not> isActive (setActive demo_env False tracking_state)
   \<and> frame_messages True tracking_state True demo_frame = [INPUT_UPDATE 0.5 True]
   \<and> frame_messages True (setActive demo_env False tracking_state) True demo_frame = []"
proof -
  have r: "reachable (setActive demo_env False tracking_state)"
    unfolding tracking_state_def by (intro reachable.intros)
  have n: "\<not> isActive (setActive demo_env False tracking_state)"
    by (simp add: setActive_def tracking_state_simps cameraEffect_refs commit_def)
  have t: "frame_messages True tracking_state True demo_frame = [INPUT_UPDATE 0.5 True]"
    by (simp add: tracking_state_simps frame_messages_def onResults_def demo_frame_def
        normalize_def js_index_def handleHandInput_def post_def)
  from no_input_after_deactivation [OF r n, of True demo_frame True] r n t
  show ?thesis by simp
qed

text \<open>
  Claim C8. When the camera effect runs for an active component that already holds a
  camera, it creates and starts no camera and leaves the state as it is; when it runs
  for an inactive component that holds no camera, it calls no stop and leaves the state
  as it is.
\<close>

theorem camera_idempotent:
  "(isActive s \<and> cameraRef s \<noteq> None \<longrightarrow> cameraEffect env s = (s, []))
   \<and> (\<not> isActive s \<and> cameraRef s = None \<longrightarrow> cameraEffect env s = (s, []))"
  by (auto simp: cameraEffect_def)

theorem camera_idempotent_witness:
  "cameraRef tracking_state = Some \<lparr>cam_id = 0, has_stop = True\<rparr>
   \<and> cameraEffect demo_env tracking_state = (tracking_state, [])
   \<and> cameraEffect demo_env idle_state = (idle_state, [])"
proof -
  have m: "\<not> isActive idle_state" "cameraRef idle_state = None"
    by (simp_all add: idle_state_def)
  from camera_idempotent [of tracking_state demo_env]
    camera_idempotent [of idle_state demo_env] tracking_state_simps m
  show ?thesis by simp
qed


section \<open>The completion handler\<close>

lemma posted_append: "posted (xs @ ys) = posted xs @ posted ys"
  by (induction xs rule: posted.induct) auto

lemma posted_map_Post: "posted (map Post ms) = ms"
  by (induction ms) auto

lemma js_get_None: "js_get d k = None \<longleftrightarrow> d = JUndefined \<or> d = JNull"
  by (cases d) auto

lemma js_get_game_over:
  "js_get (game_over p) ''type'' = Some (JStr ''GAME_OVER'')"
  "js_get (game_over p) ''payload'' = Some p"
  by (simp_all add: game_over_def)

lemma prompt_telemetry:
  "generateAnalysisPrompt telemetry =
     Some [JNum 80, JNum 20, JNum 90, JNum 70, JNum 10,
           JStr ''studied at academy'', JStr ''rejected market'', JStr ''retrospective exhibit'',
           JNum 12, JNum 3, JNum 40]"
  by (simp add: generateAnalysisPrompt_def telemetry_def js_or_def js_opt_get_def subst_def)


lemma prompt_unprintable: "generateAnalysisPrompt unprintable_payload = None"
  by (simp add: generateAnalysisPrompt_def unprintable_payload_def subst_def)


text \<open>
  Claim C3, as amended. For every completion event, if report generation fails (the
  client cannot be created, the prompt cannot be built, the service call throws, or
  the returned text is not JSON), the handler resolves without propagating the error,
  and it delivers exactly the literal fallback report when the guest's content window
  is present at that moment; when the window is absent nothing is delivered. The
  prompt cannot be built when a property read or the conversion of a substituted value
  to a string throws.
\<close>

theorem fallback_on_failure:
  assumes "js_get data ''type'' = Some (JStr ''GAME_OVER'')"
    and "js_get data ''payload'' = Some gameData"
    and "genai_ctor_throws env \<or> generateAnalysisPrompt gameData = None
         \<or> service env = SvcThrows \<or> service env = SvcText None"
  shows "snd (handleMessage env data) = Resolved
     \<and> posted (fst (handleMessage env data))
         = (if contentWindow env then [REPORT_GENERATED fallback_report] else [])"
  using assms
  by (auto simp: handleMessage_def try_report_def posted_append posted_map_Post post_def
      split: option.splits svc_outcome.splits)

theorem fallback_on_failure_witness:
  "service env_down = SvcThrows
   \<and> snd (handleMessage env_down (game_over telemetry)) = Resolved
   \<and> posted (fst (handleMessage env_down (game_over telemetry)))
       = [REPORT_GENERATED fallback_report]
   \<and> generateAnalysisPrompt unprintable_payload = None
   \<and> posted (fst (handleMessage env_ok (game_over unprintable_payload)))
       = [REPORT_GENERATED fallback_report]"
  using fallback_on_failure [of "game_over telemetry" telemetry env_down]
    fallback_on_failure [of "game_over unprintable_payload" unprintable_payload env_ok]
  by (simp add: js_get_game_over prompt_unprintable env_down_def env_ok_def)

text \<open>
  The claim as first stated fails when the service call throws while the guest's
  content window is absent: the handler resolves and the fallback is not delivered.
\<close>

theorem fallback_counterexample:
  "posted (fst (handleMessage (env_down\<lparr>contentWindow := False\<rparr>) (game_over telemetry)))
     \<noteq> [REPORT_GENERATED fallback_report]"
  by (simp add: handleMessage_def js_get_game_over try_report_def prompt_telemetry
      env_down_def post_def)

text \<open>
  Claim C4, as amended. For every completion event at most one report message is sent
  to the guest: exactly one when the guest's content window is present at that moment
  (the parsed report when the prompt could be built and the service returned JSON
  text, the fallback report otherwise), and none when the window is absent.
\<close>

theorem at_most_one_report:
  assumes "js_get data ''type'' = Some (JStr ''GAME_OVER'')"
    and "js_get data ''payload'' = Some gameData"
  shows "length (posted (fst (handleMessage env data))) = (if contentWindow env then 1 else 0)
     \<and> (\<not> genai_ctor_throws env \<and> generateAnalysisPrompt gameData \<noteq> None
          \<and> service env = SvcText (Some report)
        \<longrightarrow> posted (fst (handleMessage env data))
              = post (contentWindow env) (REPORT_GENERATED report))
     \<and> (genai_ctor_throws env \<or> generateAnalysisPrompt gameData = None
          \<or> service env = SvcThrows \<or> service env = SvcText None
        \<longrightarrow> posted (fst (handleMessage env data))
              = post (contentWindow env) (REPORT_GENERATED fallback_report))"
  using assms
  by (auto simp: handleMessage_def try_report_def posted_append posted_map_Post post_def
      split: option.splits svc_outcome.splits)

theorem at_most_one_report_witness:
  "posted (fst (handleMessage env_ok (game_over telemetry))) = [REPORT_GENERATED pillar_report]
   \<and> posted (fst (handleMessage env_down (game_over telemetry)))
       = [REPORT_GENERATED fallback_report]
   \<and> posted (fst (handleMessage env_ok (game_over unprintable_payload)))
       = [REPORT_GENERATED fallback_report]"
  using at_most_one_report [of "game_over telemetry" telemetry env_ok pillar_report]
    at_most_one_report [of "game_over telemetry" telemetry env_down]
    at_most_one_report [of "game_over unprintable_payload" unprintable_payload env_ok]
  by (simp add: js_get_game_over prompt_telemetry prompt_unprintable env_ok_def env_down_def
      post_def)

text \<open>
  The claim as first stated (never zero messages) fails when the service returns a
  valid report while the guest's content window is absent.
\<close>

theorem one_report_counterexample:
  "posted (fst (handleMessage (env_ok\<lparr>contentWindow := False\<rparr>) (game_over telemetry))) = []"
  by (simp add: handleMessage_def js_get_game_over try_report_def prompt_telemetry
      env_ok_def post_def)




text \<open>
  Claim C10. When the guest's content window is absent at the moment of a send, the
  input message or the report message is dropped: the input callback sends nothing,
  the completion handler sends nothing and still resolves, and its only other effects
  are the service call and the error log (nothing is retried or kept for later).
\<close>

theorem dropped_without_window:
  assumes "\<not> contentWindow env"
  shows "handleHandInput (contentWindow env) xv act = []
     \<and> posted (fst (handleMessage env data)) = []
     \<and> (js_get data ''type'' \<noteq> None \<longrightarrow> snd (handleMessage env data) = Resolved)"
  using assms
  by (auto simp: handleHandInput_def handleMessage_def try_report_def posted_append
      posted_map_Post post_def js_get_None split: option.splits svc_outcome.splits)

theorem dropped_without_window_witness:
  "\<not> contentWindow (env_ok\<lparr>contentWindow := False\<rparr>)
   \<and> handleHandInput False 0.5 True = []
   \<and> posted (fst (handleMessage (env_ok\<lparr>contentWindow := False\<rparr>) (game_over telemetry))) = []
   \<and> snd (handleMessage (env_ok\<lparr>contentWindow := False\<rparr>) (game_over telemetry)) = Resolved"
  using dropped_without_window [where env = "env_ok\<lparr>contentWindow := False\<rparr>" and xv = "0.5"
      and act = True and data = "game_over telemetry"]
  by (simp add: js_get_game_over)


section \<open>Pause synchronisation\<close>

text \<open>
  While the pending timeout, if any, belongs to an unpaused render, the passing of time
  alone delivers nothing but \<^verbatim>\<open>PAUSE_GAME false\<close>.
\<close>

lemma elapse_no_stale:
  "list_all is_Elapse es \<Longrightarrow> timer s = None \<or> (\<exists>dl. timer s = Some (dl, False, False))
     \<Longrightarrow> set (snd (app_run es s)) \<subseteq> {PAUSE_GAME False}"
proof (induction es arbitrary: s)
  case Nil
  show ?case by simp
next
  case (Cons e es)
  from Cons.prems(1) obtain d where e: "e = Elapse d" and es: "list_all is_Elapse es"
    by (cases e) auto
  obtain s1 out1 where st: "app_step e s = (s1, out1)" by (cases "app_step e s")
  from Cons.prems(2) st e
  have t1: "timer s1 = None \<or> (\<exists>dl. timer s1 = Some (dl, False, False))"
    and o1: "set out1 \<subseteq> {PAUSE_GAME False}"
    by (auto simp: syncGameState_def post_def split: if_splits)
  from Cons.IH [OF es t1] st o1 show ?case
    by (auto split: prod.splits)
qed

lemma app_run_Cons:
  "app_run (e # es) s =
     (fst (app_run es (fst (app_step e s))),
      snd (app_step e s) @ snd (app_run es (fst (app_step e s))))"
  by (simp split: prod.splits)

text \<open>
  Claim C9. Let a timeout be pending that would deliver a pause value of true. If,
  before its deadline, the modal or the menu that caused the pause is closed (the pause
  value becomes false), then the pending timeout is cleared: whatever time passes
  afterwards, the guest is sent nothing but the final value false, which is delivered
  100ms after the change when the guest's content window is present.
\<close>

theorem pause_debounced:
  assumes pending: "timer s = Some (deadline, sm, sr)" "sm \<or> sr"
    and early: "now s + d1 < deadline"
    and change: "(e = SetShowModal False \<and> showModal s \<and> \<not> showRemix s)
               \<or> (e = SetShowRemix False \<and> showRemix s \<and> \<not> showModal s)"
    and later: "list_all is_Elapse es"
  shows "set (snd (app_run (Elapse d1 # e # es) s)) \<subseteq> {PAUSE_GAME False}
     \<and> snd (app_run [Elapse d1, e, Elapse d2] s)
           = (if 100 \<le> d2 \<and> iframeWindow s then [PAUSE_GAME False] else [])"
proof -
  let ?s1 = "fst (app_step (Elapse d1) s)"
  let ?s2 = "fst (app_step e ?s1)"
  from pending early have o1: "snd (app_step (Elapse d1) s) = []" by simp
  from pending early change have o2: "snd (app_step e ?s1) = []" by auto
  from pending early change have "\<exists>dl. timer ?s2 = Some (dl, False, False)" by auto
  from elapse_no_stale [OF later disjI2, OF this]
  have "set (snd (app_run es ?s2)) \<subseteq> {PAUSE_GAME False}" .
  with o1 o2 have a: "set (snd (app_run (Elapse d1 # e # es) s)) \<subseteq> {PAUSE_GAME False}"
    by (simp only: app_run_Cons snd_conv append_Nil)
  from assms have b: "snd (app_run [Elapse d1, e, Elapse d2] s)
           = (if 100 \<le> d2 \<and> iframeWindow s then [PAUSE_GAME False] else [])"
    by (auto simp: syncGameState_def post_def)
  from a b show ?thesis by simp
qed

theorem pause_debounced_witness:
  "snd (app_run [Elapse 40, SetShowModal False, Elapse 100] (app_init\<lparr>iframeWindow := True\<rparr>))
     = [PAUSE_GAME False]
   \<and> snd (app_run [Elapse 100] (app_init\<lparr>iframeWindow := True\<rparr>)) = [PAUSE_GAME True]"
  using pause_debounced [where s = "app_init\<lparr>iframeWindow := True\<rparr>" and deadline = 100
      and sm = True and sr = False and ?d1.0 = 40 and e = "SetShowModal False"
      and es = "[Elapse 100]" and ?d2.0 = 100]
  by (simp add: app_init_def syncGameState_def post_def)

section \<open>Script loading\<close>

lemma distinct_script_urls: "distinct script_urls"
  by (simp add: script_urls_def)

lemma nth_notin_take: "distinct us \<Longrightarrow> k < length us \<Longrightarrow> us ! k \<notin> set (take k us)"
  by (auto simp: in_set_conv_nth nth_eq_iff_index_eq)

lemma in_take_Suc:
  "k < length us \<Longrightarrow> u \<in> set (take (Suc k) us) \<Longrightarrow> u \<notin> set (take k us) \<Longrightarrow> u = us ! k"
  by (auto simp: take_Suc_conv_app_nth)

lemma seq_inv_cases:
  assumes "seq_inv us s"
  obtains (c_chk) k where "invs s = [Checking k]" "k \<le> length us" "tags s = take k us"
      "set (loaded s) = set (take k us)" "errored s = []"
  | (c_wait) k where "invs s = [Waiting k]" "k < length us" "tags s = take (Suc k) us"
      "set (loaded s) = set (take k us)" "errored s = []"
  | (c_done) "invs s = [Done]" "tags s = us" "set (loaded s) = set us" "errored s = []"
  | (c_failed) k where "invs s = [Failed]" "k < length us" "tags s = take (Suc k) us"
      "set (loaded s) = set (take k us)" "errored s = [us ! k]"
  using assms unfolding seq_inv_def
  by (auto split: list.splits inv_state.splits)

lemma seq_inv_start: "seq_inv us (loader_step us Invoke loader_init)"
  by (cases us)
    (auto simp: seq_inv_def loader_init_def initScripts_from_def loadScript_def
      take_Suc_conv_app_nth)

lemma seq_inv_resume:
  assumes d: "distinct us" and i: "seq_inv us s"
  shows "seq_inv us (loader_step us (Resume i) s)"
  using i
proof (cases rule: seq_inv_cases)
  case (c_chk k)
  show ?thesis
  proof (cases "i = 0")
    case True
    show ?thesis
    proof (cases "k < length us")
      case True
      with nth_notin_take [OF d True] c_chk \<open>i = 0\<close> show ?thesis
        by (simp add: seq_inv_def initScripts_from_def loadScript_def take_Suc_conv_app_nth)
    next
      case False
      with c_chk \<open>i = 0\<close> show ?thesis
        by (simp add: seq_inv_def initScripts_from_def)
    qed
  next
    case False
    with c_chk i show ?thesis by simp
  qed
next
  case (c_wait k)
  with i show ?thesis by (cases i) simp_all
next
  case c_done
  with i show ?thesis by (cases i) simp_all
next
  case (c_failed k)
  with i show ?thesis by (cases i) simp_all
qed

lemma seq_inv_loaded:
  assumes d: "distinct us" and i: "seq_inv us s"
  shows "seq_inv us (loader_step us (Loaded u) s)"
  using i
proof (cases rule: seq_inv_cases)
  case (c_chk k)
  with i show ?thesis by simp
next
  case (c_wait k)
  show ?thesis
  proof (cases "u \<in> set (tags s) \<and> u \<notin> set (loaded s)")
    case True
    with c_wait have "u = us ! k" by (auto intro: in_take_Suc)
    with c_wait True show ?thesis
      by (simp add: seq_inv_def take_Suc_conv_app_nth)
  next
    case False
    with i show ?thesis by auto
  qed
next
  case c_done
  with i show ?thesis by simp
next
  case (c_failed k)
  show ?thesis
  proof (cases "u \<in> set (tags s) \<and> u \<notin> set (loaded s)")
    case True
    with c_failed have "u = us ! k" by (auto intro: in_take_Suc)
    with c_failed i show ?thesis by simp
  next
    case False
    with i show ?thesis by auto
  qed
qed

lemma seq_inv_errored:
  assumes d: "distinct us" and i: "seq_inv us s"
  shows "seq_inv us (loader_step us (Errored u) s)"
  using i
proof (cases rule: seq_inv_cases)
  case (c_chk k)
  with i show ?thesis by simp
next
  case (c_wait k)
  show ?thesis
  proof (cases "u \<in> set (tags s) \<and> u \<notin> set (loaded s)")
    case True
    with c_wait have "u = us ! k" by (auto intro: in_take_Suc)
    with c_wait True show ?thesis
      by (auto simp add: seq_inv_def)
  next
    case False
    with i show ?thesis by auto
  qed
next
  case c_done
  with i show ?thesis by simp
next
  case (c_failed k)
  show ?thesis
  proof (cases "u \<in> set (tags s) \<and> u \<notin> set (loaded s)")
    case True
    with c_failed have "u = us ! k" by (auto intro: in_take_Suc)
    with c_failed i show ?thesis by simp
  next
    case False
    with i show ?thesis by auto
  qed
qed

lemma seq_inv_step:
  "distinct us \<Longrightarrow> seq_inv us s \<Longrightarrow> \<not> is_Invoke e \<Longrightarrow> seq_inv us (loader_step us e s)"
  by (cases e)
    (simp_all add: seq_inv_resume seq_inv_loaded seq_inv_errored del: loader_step.simps)

lemma seq_inv_run:
  "distinct us \<Longrightarrow> seq_inv us s \<Longrightarrow> \<not> list_ex is_Invoke evs
     \<Longrightarrow> seq_inv us (loader_run us evs s)"
  by (induction evs arbitrary: s) (simp_all add: seq_inv_step del: loader_step.simps)

lemma seq_inv_done: "seq_inv us s \<Longrightarrow> invs s ! 0 = Done \<Longrightarrow> all_loaded us s"
  by (erule seq_inv_cases) (simp_all add: all_loaded_def)

lemma seq_inv_in_flight: "distinct us \<Longrightarrow> seq_inv us s \<Longrightarrow> length (in_flight s) \<le> 1"
  by (erule seq_inv_cases)
    (simp_all add: in_flight_def take_Suc_conv_app_nth filter_empty_conv)

lemma seq_inv_prefix: "seq_inv us s \<Longrightarrow> \<exists>k. tags s = take k us"
  by (erule seq_inv_cases) (auto intro: exI [of _ "length us"])

lemma single_run_inv:
  "\<not> list_ex is_Invoke evs
     \<Longrightarrow> seq_inv script_urls (loader_run script_urls (Invoke # evs) loader_init)"
  using seq_inv_run [OF distinct_script_urls seq_inv_start] by simp

lemma single_schedule_state:
  "loader_run script_urls (Invoke # single_schedule) loader_init =
     \<lparr>tags = script_urls,
      loaded = [script_urls ! 2, script_urls ! 1, script_urls ! 0],
      errored = [], invs = [Done]\<rparr>"
  by (simp add: single_schedule_def loader_init_def script_urls_def initScripts_from_def
      loadScript_def)

lemma concurrent_schedule_state:
  "loader_run script_urls concurrent_schedule loader_init =
     \<lparr>tags = script_urls, loaded = [script_urls ! 2, script_urls ! 1], errored = [],
      invs = [Waiting 0, Done]\<rparr>"
  by (simp add: concurrent_schedule_def loader_init_def script_urls_def initScripts_from_def
      loadScript_def)

text \<open>
  Claim C6, as amended. A run of the loader that is the only one, on a document that
  has none of the script tags, requests the module URLs strictly in sequence (the tags
  are appended in the order of the list, and at most one script is loading at any
  moment) and completes only when all modules have finished loading. A URL whose script
  tag is already in the document is skipped at once: the loader adds no tag and does
  not wait, whether or not that script has finished loading.
\<close>

theorem single_run_sequential:
  assumes "\<not> list_ex is_Invoke evs"
  shows "(invs (loader_run script_urls (Invoke # evs) loader_init) ! 0 = Done
            \<longrightarrow> all_loaded script_urls (loader_run script_urls (Invoke # evs) loader_init))
     \<and> length (in_flight (loader_run script_urls (Invoke # evs) loader_init)) \<le> 1
     \<and> (\<exists>k. tags (loader_run script_urls (Invoke # evs) loader_init) = take k script_urls)
     \<and> (src \<in> set (tags s) \<longrightarrow> loadScript src s = (s, True))"
proof -
  let ?s = "loader_run script_urls (Invoke # evs) loader_init"
  have i: "seq_inv script_urls ?s" by (rule single_run_inv [OF assms])
  have a: "invs ?s ! 0 = Done \<longrightarrow> all_loaded script_urls ?s"
    using i by (blast intro: seq_inv_done)
  have b: "length (in_flight ?s) \<le> 1"
    by (rule seq_inv_in_flight [OF distinct_script_urls i])
  have c: "\<exists>k. tags ?s = take k script_urls"
    by (rule seq_inv_prefix [OF i])
  have d: "src \<in> set (tags s) \<longrightarrow> loadScript src s = (s, True)"
    by (simp add: loadScript_def)
  from a b c d show ?thesis by blast
qed

theorem single_run_sequential_witness:
  "\<not> list_ex is_Invoke single_schedule
   \<and> invs (loader_run script_urls (Invoke # single_schedule) loader_init) ! 0 = Done
   \<and> all_loaded script_urls (loader_run script_urls (Invoke # single_schedule) loader_init)
   \<and> loadScript (script_urls ! 0) (loader_run script_urls (Invoke # single_schedule) loader_init)
       = (loader_run script_urls (Invoke # single_schedule) loader_init, True)"
proof -
  have n: "\<not> list_ex is_Invoke single_schedule"
    by (simp add: single_schedule_def)
  have d: "invs (loader_run script_urls (Invoke # single_schedule) loader_init) ! 0 = Done"
    unfolding single_schedule_state by simp
  have t: "script_urls ! 0
      \<in> set (tags (loader_run script_urls (Invoke # single_schedule) loader_init))"
    unfolding single_schedule_state by (simp add: script_urls_def)
  from single_run_sequential [OF n, of "script_urls ! 0"
      "loader_run script_urls (Invoke # single_schedule) loader_init"] n d t
  show ?thesis by simp
qed

text \<open>
  The claim as first stated (each of several concurrent runs completes only when all
  modules have loaded) fails for two runs started together: the second run finds the
  tag of the first URL, skips it, and completes while that script is still loading.
\<close>

theorem concurrent_run_counterexample:
  "invs (loader_run script_urls concurrent_schedule loader_init) ! 1 = Done
   \<and> \<not> all_loaded script_urls (loader_run script_urls concurrent_schedule loader_init)"
  unfolding concurrent_schedule_state by (simp add: all_loaded_def script_urls_def)

end
